theory Spec2Isabelle
  imports Complex_Main
begin

section \<open>Python values used by the well-construction engine\<close>

text \<open>
  A Python \<open>float\<close> (IEEE 754 binary64) is modelled by the value it denotes: a finite
  number, one of the two infinities, or NaN. Every finite float is a real, and the
  comparisons the engine uses (\<open>>\<close>, \<open><\<close>, \<open>==\<close>, \<open>!=\<close>) are exact on floats, so the
  model decides each comparison as Python does. The two zeros \<open>0.0\<close> and \<open>-0.0\<close>
  compare equal in Python and are the same value here.
\<close>

datatype pyfloat = Finite real | PosInf | NegInf | NaN

fun float_lt :: "pyfloat \<Rightarrow> pyfloat \<Rightarrow> bool" where
  "float_lt NaN _ = False"
| "float_lt _ NaN = False"
| "float_lt (Finite x) (Finite y) = (x < y)"
| "float_lt (Finite x) PosInf = True"
| "float_lt (Finite x) NegInf = False"
| "float_lt PosInf _ = False"
| "float_lt NegInf (Finite y) = True"
| "float_lt NegInf PosInf = True"
| "float_lt NegInf NegInf = False"

definition float_gt :: "pyfloat \<Rightarrow> pyfloat \<Rightarrow> bool" where
  "float_gt a b = float_lt b a"

fun float_eq :: "pyfloat \<Rightarrow> pyfloat \<Rightarrow> bool" where
  "float_eq NaN _ = False"
| "float_eq _ NaN = False"
| "float_eq (Finite x) (Finite y) = (x = y)"
| "float_eq PosInf PosInf = True"
| "float_eq NegInf NegInf = True"
| "float_eq _ _ = False"

definition float_ne :: "pyfloat \<Rightarrow> pyfloat \<Rightarrow> bool" where
  "float_ne a b = (\<not> float_eq a b)"

text \<open>Python exceptions raised by the code under study, with their messages.\<close>

datatype py_exception = ValueError string

subsection \<open>Strings: \<open>str.lower\<close> and the substring test \<open>in\<close>\<close>

text \<open>
  The keywords looked for are ASCII, and \<open>str.lower\<close> maps no character outside
  \<open>A\<close>..\<open>Z\<close> onto a run of characters that completes one of them, so lowering the
  ASCII capitals is what the containment tests observe.
\<close>

definition lower_char :: "char \<Rightarrow> char" where
  "lower_char c =
     (case map_of (zip ''ABCDEFGHIJKLMNOPQRSTUVWXYZ'' ''abcdefghijklmnopqrstuvwxyz'') c of
        Some d \<Rightarrow> d
      | None \<Rightarrow> c)"

definition lower :: "string \<Rightarrow> string" where
  "lower s = map lower_char s"

fun startswith :: "string \<Rightarrow> string \<Rightarrow> bool" where
  "startswith s [] = True"
| "startswith [] (p # ps) = False"
| "startswith (c # cs) (p # ps) = (c = p \<and> startswith cs ps)"

text \<open>\<open>str_in sub s\<close> is Python's \<open>sub in s\<close> on strings.\<close>

fun str_in :: "string \<Rightarrow> string \<Rightarrow> bool" where
  "str_in sub [] = (sub = [])"
| "str_in sub (c # cs) = (startswith (c # cs) sub \<or> str_in sub cs)"

section \<open>SegmentMethodResolver: \<open>CreateWells._method\<close>\<close>

text \<open>The enumeration \<open>completor.constants.SegmentCreationMethod\<close>.\<close>

datatype SegmentCreationMethod = FIX | CELLS | USER | WELSEGS

text \<open>
  The value of \<open>case.segment_length\<close>: a float, a string, or a value of any other type
  (given by its rendering in an f-string, which is all the code reads of it).
\<close>

datatype segment_length = Float pyfloat | Str string | Other string

text \<open>The two messages of the \<open>ValueError\<close>s; \<open>v\<close> is the f-string rendering of the value.\<close>

definition unrecognized_method_msg :: "string \<Rightarrow> string" where
  "unrecognized_method_msg v =
     ''Unrecognized method '' @ [CHR 0x27] @ v @ [CHR 0x27] @ '' in SEGMENTLENGTH keyword. ''
     @ ''The value should be one of: ''
     @ [CHR 0x27] @ ''WELSEGS'' @ [CHR 0x27] @ '', ''
     @ [CHR 0x27] @ ''CELLS'' @ [CHR 0x27] @ '', ''
     @ [CHR 0x27] @ ''USER'' @ [CHR 0x27]
     @ '', or a number: -1 for '' @ [CHR 0x27] @ ''USER'' @ [CHR 0x27]
     @ '', 0 for '' @ [CHR 0x27] @ ''CELLS'' @ [CHR 0x27]
     @ '', positive number for '' @ [CHR 0x27] @ ''FIX'' @ [CHR 0x27] @ ''.''"

definition unrecognized_type_msg :: "string \<Rightarrow> string" where
  "unrecognized_type_msg v =
     ''Unrecognized type of '' @ [CHR 0x27] @ v @ [CHR 0x27] @ '' in SEGMENTLENGTH keyword. ''
     @ ''The keyword must either be float or string.''"

text \<open>
  \<open>CreateWells._method\<close>. It reads \<open>self.case.segment_length\<close> and nothing else, so
  that value is the argument. In the float branch the three comparisons are tried in the
  source's order; the \<open>else\<close> of the last one raises. Only NaN can get there, and Python
  renders it as \<open>nan\<close>.
\<close>

fun CreateWells_method :: "segment_length \<Rightarrow> py_exception + SegmentCreationMethod" where
  "CreateWells_method (Float v) =
     (if float_gt v (Finite 0) then Inr FIX
      else if float_eq v (Finite 0) then Inr CELLS
      else if float_lt v (Finite 0) then Inr USER
      else Inl (ValueError (unrecognized_method_msg ''nan'')))"
| "CreateWells_method (Str s) =
     (if str_in ''welsegs'' (lower s) \<or> str_in ''infill'' (lower s) then Inr WELSEGS
      else if str_in ''cell'' (lower s) then Inr CELLS
      else if str_in ''user'' (lower s) then Inr USER
      else Inl (ValueError (unrecognized_method_msg s)))"
| "CreateWells_method (Other v) = Inl (ValueError (unrecognized_type_msg v))"

text \<open>
  What the specification calls "contains the keyword, case-insensitively", said without
  \<open>str.lower\<close>: some contiguous run of the string matches the keyword letter by letter,
  where a character matches a letter of the keyword when it is that letter or, for a
  letter \<open>a\<close>..\<open>z\<close> (ASCII codes 97 to 122), its capital (the code 32 below).
\<close>

definition eq_ignoring_case :: "char \<Rightarrow> char \<Rightarrow> bool" where
  "eq_ignoring_case c k =
     (c = k \<or> (97 \<le> (of_char k :: nat) \<and> (of_char k :: nat) \<le> 122
               \<and> (of_char c :: nat) + 32 = of_char k))"

definition contains_ci :: "string \<Rightarrow> string \<Rightarrow> bool" where
  "contains_ci kw s = (\<exists>ps m ss. s = ps @ m @ ss \<and> list_all2 eq_ignoring_case m kw)"

section \<open>The completion table and the case file\<close>

text \<open>
  One row of the COMPLETION table, with the columns and types that
  \<open>set_format_completion\<close> gives it. Further columns (such as \<open>ANNULUS_ZONE\<close>) are
  the extension part of the record.
\<close>

record completion_row =
  WELL :: string
  BRANCH :: int
  STARTMD :: pyfloat
  ENDMD :: pyfloat
  INNER_ID :: pyfloat
  OUTER_ID :: pyfloat
  ROUGHNESS :: pyfloat
  ANNULUS :: string
  NVALVEPERJOINT :: pyfloat
  DEVICETYPE :: string
  DEVICENUMBER :: int

text \<open>
  What \<open>CreateWells\<close> reads of the \<open>ReadCasefile\<close> object: the completion table, the
  flag of the GP\_PERF\_DEVICELAYER keyword, and the method \<open>get_completion\<close>, whose code
  is not part of the sources at hand and is therefore a component of the object.
\<close>

record ReadCasefile =
  completion_table :: "completion_row list"
  gp_perf_devicelayer :: bool
  get_completion :: "string \<Rightarrow> int \<Rightarrow> completion_row list"

section \<open>ActiveWellFilter: \<open>CreateWells._active_wells\<close>\<close>

text \<open>
  \<open>list(set(column))\<close> lists each value of the column once, in the iteration order of
  a Python set of strings. That order comes from the strings' hashes, which change from
  one interpreter run to the next; it is not the order of the column. The model takes
  the listing as an argument, and \<open>is_set_listing\<close> says which lists it can be.
\<close>

definition is_set_listing :: "string list \<Rightarrow> string list \<Rightarrow> bool" where
  "is_set_listing set_order column = (distinct set_order \<and> set set_order = set column)"

text \<open>\<open>list.remove(x)\<close> deletes the first \<open>x\<close> and raises when there is none.\<close>

definition list_remove :: "string \<Rightarrow> string list \<Rightarrow> py_exception + string list" where
  "list_remove x xs =
     (if x \<in> set xs then Inr (remove1 x xs)
      else Inl (ValueError ''list.remove(x): x not in list''))"

definition ann_series :: "completion_row list \<Rightarrow> string \<Rightarrow> string list" where
  "ann_series tbl well_name = map ANNULUS (filter (\<lambda>r. WELL r = well_name) tbl)"

definition type_series :: "completion_row list \<Rightarrow> string \<Rightarrow> string list" where
  "type_series tbl well_name = map DEVICETYPE (filter (\<lambda>r. WELL r = well_name) tbl)"

text \<open>\<open>series.isin(values).any()\<close>\<close>

definition isin_any :: "string list \<Rightarrow> string list \<Rightarrow> bool" where
  "isin_any series vals = list_ex (\<lambda>x. x \<in> set vals) series"

definition gp_check :: "completion_row list \<Rightarrow> string \<Rightarrow> bool" where
  "gp_check tbl well_name = (\<not> isin_any (ann_series tbl well_name) [''OA''])"

definition perf_check :: "completion_row list \<Rightarrow> string \<Rightarrow> bool" where
  "perf_check tbl well_name =
     (\<not> isin_any (type_series tbl well_name)
          [''AICD'', ''AICV'', ''DAR'', ''ICD'', ''VALVE'', ''ICV''])"

text \<open>
  The loop over a copy of the listing. The second component of the result records
  whether the warning "There are no active wells ..." was logged, which is when the
  loop returns early with the empty array.
\<close>

fun active_wells_loop ::
  "ReadCasefile \<Rightarrow> string list \<Rightarrow> string list \<Rightarrow> py_exception + (string list \<times> bool)" where
  "active_wells_loop c [] active_wells = Inr (active_wells, False)"
| "active_wells_loop c (well_name # rest) active_wells =
     (case (if gp_check (completion_table c) well_name
               \<and> perf_check (completion_table c) well_name
               \<and> \<not> gp_perf_devicelayer c
            then list_remove well_name active_wells
            else Inr active_wells) of
        Inl e \<Rightarrow> Inl e
      | Inr active_wells' \<Rightarrow>
          if active_wells' = [] then Inr ([], True)
          else active_wells_loop c rest active_wells')"

definition CreateWells_active_wells ::
  "string list \<Rightarrow> ReadCasefile \<Rightarrow> py_exception + (string list \<times> bool)" where
  "CreateWells_active_wells set_order c = active_wells_loop c set_order set_order"

text \<open>The condition under which the loop removes a well.\<close>

definition deactivated :: "ReadCasefile \<Rightarrow> string \<Rightarrow> bool" where
  "deactivated c w =
     (gp_check (completion_table c) w \<and> perf_check (completion_table c) w
      \<and> \<not> gp_perf_devicelayer c)"

subsection \<open>The filter as the specification words it\<close>

text \<open>
  The specification's rule: a well is excluded when every interval has annulus
  gravel-pack, no interval has an active device type, and the flag is false.
\<close>

definition spec_excluded :: "ReadCasefile \<Rightarrow> string \<Rightarrow> bool" where
  "spec_excluded c w =
     (list_all (\<lambda>r. ANNULUS r = ''GP'') (filter (\<lambda>r. WELL r = w) (completion_table c))
      \<and> \<not> list_ex (\<lambda>r. DEVICETYPE r \<in> set [''AICD'', ''AICV'', ''DAR'', ''ICD'', ''VALVE'', ''ICV''])
            (filter (\<lambda>r. WELL r = w) (completion_table c))
      \<and> \<not> gp_perf_devicelayer c)"

text \<open>
  The values of a column in the order in which they are first met, each once: the
  specification's "original encounter order with duplicates removed", and what pandas'
  \<open>Series.unique\<close> returns.
\<close>

fun unique :: "'a list \<Rightarrow> 'a list" where
  "unique [] = []"
| "unique (x # xs) = x # unique (filter (\<lambda>y. y \<noteq> x) xs)"

subsection \<open>Example tables\<close>

definition interval ::
  "string \<Rightarrow> int \<Rightarrow> real \<Rightarrow> real \<Rightarrow> string \<Rightarrow> string \<Rightarrow> completion_row" where
  "interval well branch start_md end_md annulus device =
     \<lparr>WELL = well, BRANCH = branch, STARTMD = Finite start_md, ENDMD = Finite end_md,
      INNER_ID = Finite 0.15, OUTER_ID = Finite 0.2159, ROUGHNESS = Finite 0.00065,
      ANNULUS = annulus, NVALVEPERJOINT = Finite 1, DEVICETYPE = device, DEVICENUMBER = 1\<rparr>"

text \<open>A gravel-packed, perforated well with one packer.\<close>

definition packed_case :: ReadCasefile where
  "packed_case =
     \<lparr>completion_table =
        [interval ''W1'' 1 0 100 ''GP'' ''PERF'',
         interval ''W1'' 1 100 100 ''PA'' ''PERF'',
         interval ''W1'' 1 100 200 ''GP'' ''PERF''],
      gp_perf_devicelayer = False,
      get_completion = (\<lambda>well lateral. [])\<rparr>"

text \<open>Two open-annulus wells with devices, \<open>B\<close> before \<open>A\<close> in the table.\<close>

definition two_wells_case :: ReadCasefile where
  "two_wells_case =
     \<lparr>completion_table =
        [interval ''B'' 1 0 100 ''OA'' ''ICD'',
         interval ''A'' 1 0 100 ''OA'' ''ICD'',
         interval ''B'' 1 100 200 ''OA'' ''ICD''],
      gp_perf_devicelayer = False,
      get_completion = (\<lambda>well lateral. [])\<rparr>"

section \<open>Input validation: \<open>input_validation.py\<close>\<close>

subsection \<open>\<open>set_default_packer_section\<close>\<close>

text \<open>
  Each statement of the function replaces one column by
  \<open>np.where(df_comp["ANNULUS"] == "PA", default, column)\<close>. The six statements are
  six passes over the table, in the source's order.
\<close>

definition set_default_packer_section ::
  "'a completion_row_scheme list \<Rightarrow> 'a completion_row_scheme list" where
  "set_default_packer_section df_comp =
     (let df1 = map (\<lambda>r. r\<lparr>INNER_ID := (if ANNULUS r = ''PA'' then Finite 0 else INNER_ID r)\<rparr>) df_comp;
          df2 = map (\<lambda>r. r\<lparr>OUTER_ID := (if ANNULUS r = ''PA'' then Finite 0 else OUTER_ID r)\<rparr>) df1;
          df3 = map (\<lambda>r. r\<lparr>ROUGHNESS := (if ANNULUS r = ''PA'' then Finite 0 else ROUGHNESS r)\<rparr>) df2;
          df4 = map (\<lambda>r. r\<lparr>NVALVEPERJOINT :=
                              (if ANNULUS r = ''PA'' then Finite 0 else NVALVEPERJOINT r)\<rparr>) df3;
          df5 = map (\<lambda>r. r\<lparr>DEVICETYPE := (if ANNULUS r = ''PA'' then ''PERF'' else DEVICETYPE r)\<rparr>) df4;
          df6 = map (\<lambda>r. r\<lparr>DEVICENUMBER := (if ANNULUS r = ''PA'' then 0 else DEVICENUMBER r)\<rparr>) df5
      in df6)"

subsection \<open>\<open>assess_completion\<close> and \<open>_check_for_errors\<close>\<close>

text \<open>
  What validation raises: the \<open>SystemExit\<close> that \<open>abort\<close> builds from a message, kept
  here with the values the message is formatted from, and the \<open>IndexError\<close> of
  \<open>iloc\<close> out of bounds.
\<close>

datatype validation_error =
    PackerHasLength
  | NonPackerNoLength
  | IncompleteDescription string pyfloat pyfloat
  | OverlappingDescription string pyfloat pyfloat
  | InvalidDeviceType string
  | InvalidAnnulus string
  | IndexError

text \<open>
  \<open>_check_for_errors\<close>. The checks are made in the source's order. The listing of the
  function ends with the line \<open>if df_comp["ANNULUS"].iloc[idx] not in ["GP", "OA", "PA"]:\<close>;
  what the function does from that line on is the argument \<open>remainder\<close>.
\<close>

definition check_for_errors ::
  "(completion_row list \<Rightarrow> string \<Rightarrow> nat \<Rightarrow> validation_error + unit)
   \<Rightarrow> completion_row list \<Rightarrow> string \<Rightarrow> nat \<Rightarrow> validation_error + unit" where
  "check_for_errors remainder df_comp well_name idx =
     (if length df_comp \<le> idx then Inl IndexError
      else
        let row = df_comp ! idx in
        if ANNULUS row = ''PA'' \<and> float_ne (STARTMD row) (ENDMD row)
        then Inl PackerHasLength
        else if ANNULUS row \<noteq> ''PA'' \<and> DEVICETYPE row \<noteq> ''ICV''
                \<and> float_eq (STARTMD row) (ENDMD row)
        then Inl NonPackerNoLength
        else if idx > 0 \<and> float_gt (STARTMD row) (ENDMD (df_comp ! (idx - 1)))
        then Inl (IncompleteDescription well_name (ENDMD (df_comp ! (idx - 1))) (STARTMD row))
        else if idx > 0 \<and> float_lt (STARTMD row) (ENDMD (df_comp ! (idx - 1)))
        then Inl (OverlappingDescription well_name (ENDMD (df_comp ! (idx - 1))) (STARTMD row))
        else if DEVICETYPE row \<notin> set [''PERF'', ''AICD'', ''ICD'', ''VALVE'', ''DAR'', ''AICV'', ''ICV'']
        then Inl (InvalidDeviceType (DEVICETYPE row))
        else remainder df_comp well_name idx)"

text \<open>A \<open>for\<close> loop whose body may raise: the first error ends it.\<close>

fun for_each :: "('a \<Rightarrow> 'e + unit) \<Rightarrow> 'a list \<Rightarrow> 'e + unit" where
  "for_each body [] = Inr ()"
| "for_each body (x # xs) = (case body x of Inl e \<Rightarrow> Inl e | Inr u \<Rightarrow> for_each body xs)"

text \<open>The innermost loop of \<open>assess_completion\<close>: the rows of one well and branch.\<close>

definition assess_group ::
  "(completion_row list \<Rightarrow> string \<Rightarrow> nat \<Rightarrow> validation_error + unit)
   \<Rightarrow> completion_row list \<Rightarrow> string \<Rightarrow> validation_error + unit" where
  "assess_group remainder df_comp well_name =
     for_each (check_for_errors remainder df_comp well_name) [0..<length df_comp]"

text \<open>
  \<open>assess_completion\<close>. The list of wells is taken from the table the function is
  called with. Inside the loops the source assigns the rows of the current branch to
  \<open>df_comp\<close>, the very variable that holds the table, and the next well is selected
  from \<open>df_comp\<close> as it then is. The two loops therefore carry the current value of
  \<open>df_comp\<close> along.
\<close>

fun branches_loop ::
  "(completion_row list \<Rightarrow> string \<Rightarrow> nat \<Rightarrow> validation_error + unit)
   \<Rightarrow> completion_row list \<Rightarrow> string \<Rightarrow> int list \<Rightarrow> completion_row list
   \<Rightarrow> validation_error + completion_row list" where
  "branches_loop remainder df_well well_name [] df_comp = Inr df_comp"
| "branches_loop remainder df_well well_name (branch # rest) df_comp =
     (let df_comp' = filter (\<lambda>r. BRANCH r = branch) df_well in
      case assess_group remainder df_comp' well_name of
        Inl e \<Rightarrow> Inl e
      | Inr u \<Rightarrow> branches_loop remainder df_well well_name rest df_comp')"

fun wells_loop ::
  "(completion_row list \<Rightarrow> string \<Rightarrow> nat \<Rightarrow> validation_error + unit)
   \<Rightarrow> string list \<Rightarrow> completion_row list \<Rightarrow> validation_error + completion_row list" where
  "wells_loop remainder [] df_comp = Inr df_comp"
| "wells_loop remainder (well_name # rest) df_comp =
     (let df_well = filter (\<lambda>r. WELL r = well_name) df_comp;
          list_branches = unique (map BRANCH df_well) in
      case branches_loop remainder df_well well_name list_branches df_comp of
        Inl e \<Rightarrow> Inl e
      | Inr df_comp' \<Rightarrow> wells_loop remainder rest df_comp')"

definition assess_completion ::
  "(completion_row list \<Rightarrow> string \<Rightarrow> nat \<Rightarrow> validation_error + unit)
   \<Rightarrow> completion_row list \<Rightarrow> validation_error + unit" where
  "assess_completion remainder df_comp =
     (case wells_loop remainder (unique (map WELL df_comp)) df_comp of
        Inl e \<Rightarrow> Inl e
      | Inr df_comp' \<Rightarrow> Inr ())"


definition branch_group :: "completion_row list \<Rightarrow> string \<Rightarrow> int \<Rightarrow> completion_row list" where
  "branch_group df_comp well_name branch =
     filter (\<lambda>r. BRANCH r = branch) (filter (\<lambda>r. WELL r = well_name) df_comp)"

text \<open>
  A remainder for running the function: an annulus outside the list aborts, as the
  device type check before it does, and nothing follows.
\<close>

definition annulus_check :: "completion_row list \<Rightarrow> string \<Rightarrow> nat \<Rightarrow> validation_error + unit" where
  "annulus_check df_comp well_name idx =
     (if ANNULUS (df_comp ! idx) \<notin> set [''GP'', ''OA'', ''PA'']
      then Inl (InvalidAnnulus (ANNULUS (df_comp ! idx)))
      else Inr ())"



subsection \<open>The invariant of a group as the specification words it\<close>





subsection \<open>Example groups\<close>




text \<open>A table of two wells; the second well has a gap between 100 and 150.\<close>

definition second_well_gap_table :: "completion_row list" where
  "second_well_gap_table =
     [interval ''W1'' 1 0 100 ''OA'' ''ICD'',
      interval ''W2'' 1 0 100 ''OA'' ''ICD'',
      interval ''W2'' 1 150 200 ''OA'' ''ICD'']"

text \<open>A group whose second interval runs from 100 back to 40.\<close>

definition backward_group :: "completion_row list" where
  "backward_group =
     [interval ''W1'' 1 0 100 ''OA'' ''ICD'',
      interval ''W1'' 1 100 40 ''OA'' ''ICD'',
      interval ''W1'' 1 40 200 ''OA'' ''ICD'']"

section \<open>WellDataSelector: \<open>CreateWells.select_well\<close>\<close>

subsection \<open>The tables of the schedule\<close>

text \<open>
  A row of COMPSEGS and a row of COMPDAT, with the columns \<open>select_well\<close> names: the grid
  indices on which the two tables are joined, the start depth on which duplicates are
  dropped, and the well name that is dropped. The other columns of each table are the
  extension part of its record.
\<close>

record compsegs_row =
  compsegs_I :: int
  compsegs_J :: int
  compsegs_K :: int
  compsegs_STARTMD :: pyfloat
  compsegs_ENDMD :: pyfloat

record compdat_row =
  compdat_WELL :: string
  compdat_I :: int
  compdat_J :: int
  compdat_K :: int

text \<open>
  A row of \<open>df_reservoir\<close>: the join keys, the columns of the COMPSEGS row and the columns
  of the COMPDAT row. The frame that \<open>pd.merge\<close> returns has the column WELL besides, and
  the final frame has the column \<open>index\<close> that \<open>reset_index\<close> adds.
\<close>

record ('cs, 'cd) reservoir_row =
  res_I :: int
  res_J :: int
  res_K :: int
  res_STARTMD :: pyfloat
  res_ENDMD :: pyfloat
  res_compsegs :: 'cs
  res_compdat :: 'cd

record ('cs, 'cd) merged_row = "('cs, 'cd) reservoir_row" +
  res_WELL :: string

record ('cs, 'cd) indexed_row = "('cs, 'cd) reservoir_row" +
  res_index :: nat

subsection \<open>The pandas operations\<close>

text \<open>
  \<open>pd.merge(left, right, how="inner", on=["I", "J", "K"])\<close>: one row for each pair of a
  left and a right row with the same keys, in the order of the left rows, and for one
  left row in the order of the right rows.
\<close>

definition merge_row ::
  "'cs compsegs_row_scheme \<Rightarrow> 'cd compdat_row_scheme \<Rightarrow> ('cs, 'cd) merged_row" where
  "merge_row l r =
     \<lparr>res_I = compsegs_I l, res_J = compsegs_J l, res_K = compsegs_K l,
      res_STARTMD = compsegs_STARTMD l, res_ENDMD = compsegs_ENDMD l,
      res_compsegs = compsegs_row.more l, res_compdat = compdat_row.more r,
      res_WELL = compdat_WELL r\<rparr>"

definition pd_merge_inner ::
  "'cs compsegs_row_scheme list \<Rightarrow> 'cd compdat_row_scheme list \<Rightarrow> ('cs, 'cd) merged_row list" where
  "pd_merge_inner left right =
     concat (map (\<lambda>l. map (merge_row l)
                        (filter (\<lambda>r. compdat_I r = compsegs_I l \<and> compdat_J r = compsegs_J l
                                      \<and> compdat_K r = compsegs_K l) right))
                 left)"

text \<open>
  A frame with its index labels. The frame that \<open>pd.merge\<close> returns is labelled
  \<open>0, 1, 2, ...\<close>; dropping rows keeps the labels of the rows that stay.
\<close>

definition range_index :: "'a list \<Rightarrow> (nat \<times> 'a) list" where
  "range_index rows = zip [0..<length rows] rows"

text \<open>\<open>drop(["WELL"], axis=1)\<close>\<close>

definition drop_WELL :: "('cs, 'cd) merged_row \<Rightarrow> ('cs, 'cd) reservoir_row" where
  "drop_WELL r =
     \<lparr>res_I = res_I r, res_J = res_J r, res_K = res_K r,
      res_STARTMD = res_STARTMD r, res_ENDMD = res_ENDMD r,
      res_compsegs = res_compsegs r, res_compdat = res_compdat r\<rparr>"

text \<open>
  \<open>drop_duplicates(subset=key, keep="last")\<close>: a row goes when a later row has the same
  value of the key. pandas counts two NaN as the same value here.
\<close>

fun drop_duplicates_last :: "('a \<Rightarrow> 'k) \<Rightarrow> 'a list \<Rightarrow> 'a list" where
  "drop_duplicates_last key [] = []"
| "drop_duplicates_last key (x # xs) =
     (if key x \<in> set (map key xs) then drop_duplicates_last key xs
      else x # drop_duplicates_last key xs)"

text \<open>
  \<open>reset_index()\<close> without \<open>drop=True\<close>: the old labels become the column \<open>index\<close>, and
  the rows are labelled \<open>0, 1, 2, ...\<close> again, which is their position in the list.
\<close>

definition reset_index ::
  "(nat \<times> ('cs, 'cd) reservoir_row) list \<Rightarrow> ('cs, 'cd) indexed_row list" where
  "reset_index df =
     map (\<lambda>(label, r).
            \<lparr>res_I = res_I r, res_J = res_J r, res_K = res_K r,
             res_STARTMD = res_STARTMD r, res_ENDMD = res_ENDMD r,
             res_compsegs = res_compsegs r, res_compdat = res_compdat r,
             res_index = label\<rparr>) df"

subsection \<open>The schedule and the state of \<open>CreateWells\<close>\<close>

text \<open>
  The three methods of the schedule object that \<open>select_well\<close> calls. Their code is not
  part of the sources at hand; they are the components of the object.
\<close>

record ('h, 'w, 'cs, 'cd) WellSchedule =
  get_welsegs :: "string \<Rightarrow> int \<Rightarrow> 'h \<times> 'w"
  get_compsegs :: "string \<Rightarrow> int \<Rightarrow> 'cs compsegs_row_scheme list"
  get_compdat :: "string \<Rightarrow> 'cd compdat_row_scheme list"

text \<open>The attributes of \<open>CreateWells\<close> that \<open>select_well\<close> reads or sets.\<close>

record ('h, 'w, 'cs, 'cd) CreateWells =
  casefile :: ReadCasefile
  well_name :: "string option"
  df_completion :: "completion_row list"
  df_welsegs_header :: 'h
  df_welsegs_content :: 'w
  df_reservoir :: "('cs, 'cd) indexed_row list"

definition select_well ::
  "('h, 'w, 'cs, 'cd) WellSchedule \<Rightarrow> int \<Rightarrow> ('h, 'w, 'cs, 'cd) CreateWells
   \<Rightarrow> py_exception + ('h, 'w, 'cs, 'cd) CreateWells" where
  "select_well schedule lateral self =
     (case well_name self of
        None \<Rightarrow> Inl (ValueError ''No well name given'')
      | Some name \<Rightarrow>
          let completion = get_completion (casefile self) name lateral;
              (header, content) = get_welsegs schedule name lateral;
              df_compsegs = get_compsegs schedule name lateral;
              df_compdat = get_compdat schedule name;
              merged = range_index (pd_merge_inner df_compsegs df_compdat);
              without_well = map (\<lambda>(label, r). (label, drop_WELL r)) merged;
              deduplicated = drop_duplicates_last (\<lambda>(label, r). res_STARTMD r) without_well
          in Inr (self\<lparr>df_completion := completion,
                       df_welsegs_header := header,
                       df_welsegs_content := content,
                       df_reservoir := reset_index deduplicated\<rparr>))"

subsection \<open>The selection as the specification words it\<close>

text \<open>
  The specification's reservoir table: the inner join on the grid indices, then of the
  rows with the same grid-index tuple only the last, then a dense 0-based ordering,
  which is the position in the list.
\<close>

definition spec_reservoir ::
  "'cs compsegs_row_scheme list \<Rightarrow> 'cd compdat_row_scheme list \<Rightarrow> ('cs, 'cd) reservoir_row list" where
  "spec_reservoir df_compsegs df_compdat =
     drop_duplicates_last (\<lambda>r. (res_I r, res_J r, res_K r))
       (map drop_WELL (pd_merge_inner df_compsegs df_compdat))"

subsection \<open>Example schedule\<close>

text \<open>
  COMPSEGS names the cell (1, 1, 1) twice, at two depths; COMPDAT names it once.
\<close>

definition twice_crossed_schedule :: "(unit, unit, unit, unit) WellSchedule" where
  "twice_crossed_schedule =
     \<lparr>get_welsegs = (\<lambda>well lateral. ((), ())),
      get_compsegs = (\<lambda>well lateral.
        [\<lparr>compsegs_I = 1, compsegs_J = 1, compsegs_K = 1,
          compsegs_STARTMD = Finite 10, compsegs_ENDMD = Finite 20\<rparr>,
         \<lparr>compsegs_I = 1, compsegs_J = 1, compsegs_K = 1,
          compsegs_STARTMD = Finite 30, compsegs_ENDMD = Finite 40\<rparr>]),
      get_compdat = (\<lambda>well.
        [\<lparr>compdat_WELL = ''W1'', compdat_I = 1, compdat_J = 1, compdat_K = 1\<rparr>])\<rparr>"

definition well_W1 :: "(unit, unit, unit, unit) CreateWells" where
  "well_W1 =
     \<lparr>casefile = packed_case, well_name = Some ''W1'', df_completion = [],
      df_welsegs_header = (), df_welsegs_content = (), df_reservoir = []\<rparr>"

section \<open>Properties of the string helpers\<close>

lemma startswith_iff: "startswith s p \<longleftrightarrow> (\<exists>ss. s = p @ ss)"
  by (induction s p rule: startswith.induct) auto

lemma str_in_iff: "str_in sub s \<longleftrightarrow> (\<exists>ps ss. s = ps @ sub @ ss)"
proof (induction s)
  case Nil
  then show ?case by auto
next
  case (Cons c cs)
  show ?case
  proof
    assume "str_in sub (c # cs)"
    then consider "startswith (c # cs) sub" | "str_in sub cs" by auto
    then show "\<exists>ps ss. c # cs = ps @ sub @ ss"
    proof cases
      case 1
      then obtain ss where "c # cs = sub @ ss" by (auto simp: startswith_iff)
      then have "c # cs = [] @ sub @ ss" by simp
      then show ?thesis by blast
    next
      case 2
      then obtain ps ss where "cs = ps @ sub @ ss" using Cons.IH by blast
      then have "c # cs = (c # ps) @ sub @ ss" by simp
      then show ?thesis by blast
    qed
  next
    assume "\<exists>ps ss. c # cs = ps @ sub @ ss"
    then obtain ps ss where eq: "c # cs = ps @ sub @ ss" by blast
    show "str_in sub (c # cs)"
    proof (cases ps)
      case Nil
      then have "startswith (c # cs) sub" using eq by (auto simp: startswith_iff)
      then show ?thesis by simp
    next
      case (Cons p ps')
      then have "cs = ps' @ sub @ ss" using eq by simp
      then have "str_in sub cs" using Cons.IH by blast
      then show ?thesis by simp
    qed
  qed
qed

subsection \<open>\<open>str.lower\<close> and matching up to case\<close>

lemma lower_char_cases:
  "lower_char c = k \<longleftrightarrow>
     (if c \<in> set ''ABCDEFGHIJKLMNOPQRSTUVWXYZ'' then (of_char c :: nat) + 32 = of_char k
      else c = k)"
  unfolding lower_char_def
  by (simp del: of_char_eq_iff add: of_char_eq_iff [symmetric, where ?'a = nat])

lemma upper_of_char:
  "c \<in> set ''ABCDEFGHIJKLMNOPQRSTUVWXYZ'' \<Longrightarrow>
     65 \<le> (of_char c :: nat) \<and> (of_char c :: nat) \<le> 90"
  by auto

lemma of_char_upper:
  assumes "65 \<le> (of_char c :: nat)" and "(of_char c :: nat) \<le> 90"
  shows "c \<in> set ''ABCDEFGHIJKLMNOPQRSTUVWXYZ''"
proof -
  have codes: "map (of_char :: char \<Rightarrow> nat) ''ABCDEFGHIJKLMNOPQRSTUVWXYZ'' = [65..<91]"
    by (simp add: upt_rec)
  have "(of_char c :: nat) \<in> set [65..<91]"
    unfolding set_upt using assms by simp
  then have "(of_char c :: nat) \<in> set (map of_char ''ABCDEFGHIJKLMNOPQRSTUVWXYZ'')"
    unfolding codes .
  then obtain d where d: "d \<in> set ''ABCDEFGHIJKLMNOPQRSTUVWXYZ''"
    and e: "(of_char c :: nat) = of_char d"
    unfolding set_map by blast
  from e have "c = d" by (simp only: of_char_eq_iff)
  with d show ?thesis by simp
qed

lemma lower_char_letter:
  assumes "97 \<le> (of_char k :: nat)" and "(of_char k :: nat) \<le> 122"
  shows "(lower_char c = k) = eq_ignoring_case c k"
proof (cases "c \<in> set ''ABCDEFGHIJKLMNOPQRSTUVWXYZ''")
  case True
  then have "(of_char c :: nat) \<le> 90" using upper_of_char by blast
  then have "c \<noteq> k" using assms by auto
  then show ?thesis using True assms
    unfolding lower_char_cases [of c k] eq_ignoring_case_def by simp
next
  case False
  have "(of_char c :: nat) + 32 \<noteq> of_char k"
  proof
    assume e: "(of_char c :: nat) + 32 = of_char k"
    then have "65 \<le> (of_char c :: nat)" and "(of_char c :: nat) \<le> 90" using assms by arith+
    then show False using False of_char_upper by blast
  qed
  then show ?thesis using False
    unfolding lower_char_cases [of c k] eq_ignoring_case_def by simp
qed

lemma lower_run_iff:
  assumes "\<forall>k \<in> set kw. 97 \<le> (of_char k :: nat) \<and> (of_char k :: nat) \<le> 122"
  shows "(map lower_char m = kw) = list_all2 eq_ignoring_case m kw"
  using assms
proof (induction m arbitrary: kw)
  case Nil
  then show ?case by auto
next
  case (Cons c m)
  show ?case
  proof (cases kw)
    case Nil
    then show ?thesis by simp
  next
    case (Cons k kw')
    then have "(lower_char c = k) = eq_ignoring_case c k"
      and "(map lower_char m = kw') = list_all2 eq_ignoring_case m kw'"
      using Cons.prems Cons.IH [of kw'] lower_char_letter [of k c] by simp_all
    then show ?thesis using Cons by simp
  qed
qed

lemma str_in_lower_iff:
  assumes "\<forall>k \<in> set kw. 97 \<le> (of_char k :: nat) \<and> (of_char k :: nat) \<le> 122"
  shows "str_in kw (lower s) \<longleftrightarrow> contains_ci kw s"
proof
  assume "str_in kw (lower s)"
  then obtain ps ss where "map lower_char s = ps @ kw @ ss"
    by (auto simp: str_in_iff lower_def)
  then obtain ps' m ss' where s: "s = ps' @ m @ ss'" and "map lower_char m = kw"
    by (metis map_eq_append_conv)
  then have "list_all2 eq_ignoring_case m kw"
    using lower_run_iff [OF assms] by simp
  then show "contains_ci kw s"
    unfolding contains_ci_def using s by blast
next
  assume "contains_ci kw s"
  then obtain ps m ss where s: "s = ps @ m @ ss" and "list_all2 eq_ignoring_case m kw"
    unfolding contains_ci_def by blast
  then have "map lower_char m = kw"
    using lower_run_iff [OF assms] by simp
  then have "lower s = map lower_char ps @ kw @ map lower_char ss"
    using s by (simp add: lower_def)
  then show "str_in kw (lower s)"
    unfolding str_in_iff by blast
qed

lemma keyword_tests:
  "str_in ''welsegs'' (lower s) = contains_ci ''welsegs'' s"
  "str_in ''infill'' (lower s) = contains_ci ''infill'' s"
  "str_in ''cell'' (lower s) = contains_ci ''cell'' s"
  "str_in ''user'' (lower s) = contains_ci ''user'' s"
  by (rule str_in_lower_iff, simp)+

lemma float_sign_cases:
  "v \<noteq> NaN \<Longrightarrow> float_gt v (Finite 0) \<or> float_eq v (Finite 0) \<or> float_lt v (Finite 0)"
  by (cases v) (auto simp: float_gt_def)

section \<open>SegmentMethodResolver: the decision table\<close>

text \<open>
  C2. For a numeric (float) segment length the sign decides the method and nothing is
  raised: a strictly positive value gives FIX, zero gives CELLS, a strictly negative
  value gives USER. The infinities are floats too and follow their sign.
\<close>

theorem method_numeric_sign:
  "CreateWells_method (Float (Finite x)) =
     Inr (if 0 < x then FIX else if x = 0 then CELLS else USER)
   \<and> CreateWells_method (Float PosInf) = Inr FIX
   \<and> CreateWells_method (Float NegInf) = Inr USER"
  by (simp add: float_gt_def)

text \<open>
  C10. A float segment length that is not NaN always yields FIX, CELLS or USER; the
  raising branch of the numeric case is taken by NaN and by nothing else.
\<close>

theorem method_float_error_only_nan:
  "(CreateWells_method (Float v) \<in> {Inr FIX, Inr CELLS, Inr USER}) = (v \<noteq> NaN)
   \<and> (\<exists>e. CreateWells_method (Float v) = Inl e) = (v = NaN)"
  using float_sign_cases [of v] by (cases "v = NaN") (auto simp: float_gt_def)

text \<open>
  C6. For a string segment length the result is WELSEGS when the string contains
  "welsegs" or "infill", otherwise CELLS when it contains "cell", otherwise USER when
  it contains "user", each keyword matched in any mix of capital and small letters, and
  otherwise a \<open>ValueError\<close> whose message quotes the string given. So WELSEGS, InFill,
  Cells and USER are recognised as written here, and "fix" is refused.
\<close>

theorem method_string_table:
  "CreateWells_method (Str s) =
     (if contains_ci ''welsegs'' s \<or> contains_ci ''infill'' s then Inr WELSEGS
      else if contains_ci ''cell'' s then Inr CELLS
      else if contains_ci ''user'' s then Inr USER
      else Inl (ValueError (unrecognized_method_msg s)))
   \<and> (\<exists>pre post. unrecognized_method_msg s = pre @ [CHR 0x27] @ s @ [CHR 0x27] @ post)
   \<and> CreateWells_method (Str ''WELSEGS'') = Inr WELSEGS
   \<and> CreateWells_method (Str ''InFill'') = Inr WELSEGS
   \<and> CreateWells_method (Str ''per Cells'') = Inr CELLS
   \<and> CreateWells_method (Str ''USER'') = Inr USER
   \<and> CreateWells_method (Str ''fix'') = Inl (ValueError (unrecognized_method_msg ''fix''))"
proof (intro conjI)
  show "CreateWells_method (Str s) =
     (if contains_ci ''welsegs'' s \<or> contains_ci ''infill'' s then Inr WELSEGS
      else if contains_ci ''cell'' s then Inr CELLS
      else if contains_ci ''user'' s then Inr USER
      else Inl (ValueError (unrecognized_method_msg s)))"
    by (simp only: CreateWells_method.simps keyword_tests)
  show "\<exists>pre post. unrecognized_method_msg s = pre @ [CHR 0x27] @ s @ [CHR 0x27] @ post"
    unfolding unrecognized_method_msg_def by metis
qed (simp_all add: lower_def lower_char_def)

section \<open>ActiveWellFilter: which wells remain\<close>

lemma active_wells_loop_inv:
  "distinct (done @ rest) \<Longrightarrow>
   active_wells_loop c rest (filter (\<lambda>w. \<not> deactivated c w) done @ rest) =
     Inr (filter (\<lambda>w. \<not> deactivated c w) (done @ rest),
          rest \<noteq> [] \<and> filter (\<lambda>w. \<not> deactivated c w) (done @ rest) = [])"
proof (induction rest arbitrary: "done")
  case Nil
  then show ?case by simp
next
  case (Cons w ws)
  let ?keep = "\<lambda>w. \<not> deactivated c w"
  from Cons.prems have d: "distinct ((done @ [w]) @ ws)" and wn: "w \<notin> set done" by auto
  note IH = Cons.IH [OF d]
  show ?case
  proof (cases "deactivated c w")
    case True
    have rm: "list_remove w (filter ?keep done @ w # ws) = Inr (filter ?keep done @ ws)"
      using wn by (simp add: list_remove_def remove1_append)
    have f: "filter ?keep (done @ [w]) = filter ?keep done" using True by simp
    show ?thesis
    proof (cases "filter ?keep done @ ws = []")
      case e: True
      then show ?thesis using True rm by (simp add: deactivated_def)
    next
      case ne: False
      have "active_wells_loop c (w # ws) (filter ?keep done @ w # ws) =
            active_wells_loop c ws (filter ?keep done @ ws)"
        using True rm ne by (simp add: deactivated_def)
      also have "\<dots> = active_wells_loop c ws (filter ?keep (done @ [w]) @ ws)" using f by simp
      also note IH
      finally show ?thesis using ne True by auto
    qed
  next
    case False
    have f: "filter ?keep (done @ [w]) @ ws = filter ?keep done @ w # ws" using False by simp
    have "active_wells_loop c (w # ws) (filter ?keep done @ w # ws) =
          active_wells_loop c ws (filter ?keep done @ w # ws)"
      using False by (auto simp add: deactivated_def)
    also have "\<dots> = active_wells_loop c ws (filter ?keep (done @ [w]) @ ws)" using f by simp
    also note IH
    finally show ?thesis using False by auto
  qed
qed

lemma active_wells_result:
  assumes "distinct set_order"
  shows "CreateWells_active_wells set_order c =
     Inr (filter (\<lambda>w. \<not> deactivated c w) set_order,
          set_order \<noteq> [] \<and> filter (\<lambda>w. \<not> deactivated c w) set_order = [])"
  using active_wells_loop_inv [of "[]" set_order c] assms
  by (simp add: CreateWells_active_wells_def)

lemma gp_check_iff:
  "gp_check tbl w = (\<forall>r \<in> set tbl. WELL r = w \<longrightarrow> ANNULUS r \<noteq> ''OA'')"
  unfolding gp_check_def isin_any_def ann_series_def list_ex_iff by force

lemma perf_check_iff:
  "perf_check tbl w =
     (\<forall>r \<in> set tbl. WELL r = w \<longrightarrow>
         DEVICETYPE r \<notin> {''AICD'', ''AICV'', ''DAR'', ''ICD'', ''VALVE'', ''ICV''})"
  unfolding perf_check_def isin_any_def type_series_def list_ex_iff by force

lemma deactivated_iff:
  "deactivated c w =
     ((\<forall>r \<in> set (completion_table c). WELL r = w \<longrightarrow> ANNULUS r \<noteq> ''OA'') \<and>
      (\<forall>r \<in> set (completion_table c). WELL r = w \<longrightarrow>
          DEVICETYPE r \<notin> {''AICD'', ''AICV'', ''DAR'', ''ICD'', ''VALVE'', ''ICV''}) \<and>
      \<not> gp_perf_devicelayer c)"
  unfolding deactivated_def gp_check_iff perf_check_iff by (rule refl)

lemma packed_case_listing:
  "is_set_listing [''W1''] (map WELL (completion_table packed_case))"
  by (simp add: is_set_listing_def packed_case_def interval_def)

lemma packed_case_run: "CreateWells_active_wells [''W1''] packed_case = Inr ([], True)"
  by (simp add: CreateWells_active_wells_def packed_case_def interval_def gp_check_def
      perf_check_def isin_any_def ann_series_def type_series_def list_remove_def)

lemma two_wells_listing:
  "is_set_listing [''A'', ''B''] (map WELL (completion_table two_wells_case))"
  by (auto simp add: is_set_listing_def two_wells_case_def interval_def)

lemma two_wells_run:
  "CreateWells_active_wells [''A'', ''B''] two_wells_case = Inr ([''A'', ''B''], False)"
  by (simp add: CreateWells_active_wells_def two_wells_case_def interval_def gp_check_def
      perf_check_def isin_any_def ann_series_def type_series_def list_remove_def)

text \<open>
  C1, as the specification states it, fails: the filter excludes the well of
  \<open>packed_case\<close>, whose packer interval has annulus PA and not GP.
\<close>

theorem active_wells_gravel_pack_counterexample:
  "is_set_listing [''W1''] (map WELL (completion_table packed_case))
   \<and> CreateWells_active_wells [''W1''] packed_case = Inr ([], True)
   \<and> \<not> spec_excluded packed_case ''W1''"
  using packed_case_listing packed_case_run
  by (simp add: spec_excluded_def packed_case_def interval_def)

text \<open>
  C1, amended. For every completion table and every listing of its set of well names,
  the filter returns normally, and it excludes a well of the table if and only if no
  interval of that well has annulus OA (each is gravel-pack or packer), no interval of
  that well has a device type among AICD, AICV, DAR, ICD, VALVE, ICV, and the flag
  \<open>gp_perf_devicelayer\<close> is false.
\<close>

theorem active_wells_excludes_iff:
  assumes "is_set_listing set_order (map WELL (completion_table c))"
    and "w \<in> set (map WELL (completion_table c))"
  shows "\<exists>ws warned. CreateWells_active_wells set_order c = Inr (ws, warned) \<and>
     (w \<notin> set ws) =
       ((\<forall>r \<in> set (completion_table c). WELL r = w \<longrightarrow> ANNULUS r \<noteq> ''OA'') \<and>
        (\<forall>r \<in> set (completion_table c). WELL r = w \<longrightarrow>
            DEVICETYPE r \<notin> {''AICD'', ''AICV'', ''DAR'', ''ICD'', ''VALVE'', ''ICV''}) \<and>
        \<not> gp_perf_devicelayer c)"
proof -
  from assms have d: "distinct set_order" and m: "w \<in> set set_order"
    by (simp_all add: is_set_listing_def)
  have "(w \<notin> set (filter (\<lambda>w. \<not> deactivated c w) set_order)) = deactivated c w"
    using m by simp
  then show ?thesis
    using active_wells_result [OF d, of c] by (simp add: deactivated_iff)
qed

theorem active_wells_excludes_iff_witness:
  "is_set_listing [''W1''] (map WELL (completion_table packed_case))
   \<and> ''W1'' \<in> set (map WELL (completion_table packed_case))
   \<and> (\<exists>ws warned. CreateWells_active_wells [''W1''] packed_case = Inr (ws, warned) \<and>
        ''W1'' \<notin> set ws)"
proof -
  have l: "is_set_listing [''W1''] (map WELL (completion_table packed_case))"
    by (rule packed_case_listing)
  have w: "''W1'' \<in> set (map WELL (completion_table packed_case))"
    by (simp add: packed_case_def interval_def)
  from active_wells_excludes_iff [OF l w] obtain ws warned where
    r: "CreateWells_active_wells [''W1''] packed_case = Inr (ws, warned)"
    and e: "(''W1'' \<notin> set ws) =
       ((\<forall>r \<in> set (completion_table packed_case). WELL r = ''W1'' \<longrightarrow> ANNULUS r \<noteq> ''OA'') \<and>
        (\<forall>r \<in> set (completion_table packed_case). WELL r = ''W1'' \<longrightarrow>
            DEVICETYPE r \<notin> {''AICD'', ''AICV'', ''DAR'', ''ICD'', ''VALVE'', ''ICV''}) \<and>
        \<not> gp_perf_devicelayer packed_case)"
    by blast
  have "''W1'' \<notin> set ws"
    unfolding e by (simp add: packed_case_def interval_def)
  with l w r show ?thesis by blast
qed

text \<open>
  C4, as the specification states it, fails: \<open>[A, B]\<close> is a listing of the set of the
  well names of \<open>two_wells_case\<close>, the filter then returns \<open>[A, B]\<close>, and the order in
  which the table first names the wells is \<open>[B, A]\<close>.
\<close>

theorem active_wells_order_counterexample:
  "is_set_listing [''A'', ''B''] (map WELL (completion_table two_wells_case))
   \<and> CreateWells_active_wells [''A'', ''B''] two_wells_case = Inr ([''A'', ''B''], False)
   \<and> unique (map WELL (completion_table two_wells_case)) = [''B'', ''A'']"
  using two_wells_listing two_wells_run
  by (simp add: two_wells_case_def interval_def)

text \<open>
  C4, amended. For every completion table and every listing of its set of well names,
  the filter returns the wells it does not exclude, each exactly once, in the order of
  that listing (the iteration order of the set, not the order of the table).
\<close>

theorem active_wells_listing:
  assumes "is_set_listing set_order (map WELL (completion_table c))"
  shows "\<exists>ws warned. CreateWells_active_wells set_order c = Inr (ws, warned) \<and>
     ws = filter (\<lambda>w. \<not> deactivated c w) set_order \<and>
     distinct ws \<and>
     set ws = {w \<in> set (map WELL (completion_table c)). \<not> deactivated c w}"
proof -
  from assms have d: "distinct set_order"
    and s: "set set_order = set (map WELL (completion_table c))"
    by (simp_all add: is_set_listing_def)
  have "set (filter (\<lambda>w. \<not> deactivated c w) set_order) =
        {w \<in> set (map WELL (completion_table c)). \<not> deactivated c w}"
    using s by auto
  then show ?thesis
    using active_wells_result [OF d, of c] d by simp
qed

theorem active_wells_listing_witness:
  "is_set_listing [''A'', ''B''] (map WELL (completion_table two_wells_case))
   \<and> (\<exists>warned. CreateWells_active_wells [''A'', ''B''] two_wells_case =
         Inr (filter (\<lambda>w. \<not> deactivated two_wells_case w) [''A'', ''B''], warned))"
proof -
  have l: "is_set_listing [''A'', ''B''] (map WELL (completion_table two_wells_case))"
    by (rule two_wells_listing)
  from active_wells_listing [OF l] l show ?thesis by blast
qed

section \<open>Input validation: packer defaults\<close>

text \<open>
  C9. \<open>set_default_packer_section\<close> leaves every row whose ANNULUS is not PA as it is,
  and in a row with ANNULUS PA it sets INNER\_ID, OUTER\_ID, ROUGHNESS and NVALVEPERJOINT
  to 0.0, DEVICETYPE to PERF and DEVICENUMBER to 0, and changes no other column: the
  result is the table with exactly these updates made row by row, and the columns WELL,
  BRANCH, STARTMD, ENDMD, ANNULUS and every further column are the same as before.
\<close>

theorem set_default_packer_section_frame:
  "set_default_packer_section df_comp =
     map (\<lambda>r. if ANNULUS r = ''PA''
               then r\<lparr>INNER_ID := Finite 0, OUTER_ID := Finite 0, ROUGHNESS := Finite 0,
                      NVALVEPERJOINT := Finite 0, DEVICETYPE := ''PERF'', DEVICENUMBER := 0\<rparr>
               else r) df_comp
   \<and> map WELL (set_default_packer_section df_comp) = map WELL df_comp
   \<and> map BRANCH (set_default_packer_section df_comp) = map BRANCH df_comp
   \<and> map STARTMD (set_default_packer_section df_comp) = map STARTMD df_comp
   \<and> map ENDMD (set_default_packer_section df_comp) = map ENDMD df_comp
   \<and> map ANNULUS (set_default_packer_section df_comp) = map ANNULUS df_comp
   \<and> map completion_row.more (set_default_packer_section df_comp)
       = map completion_row.more df_comp"
  by (simp add: set_default_packer_section_def Let_def comp_def)

section \<open>Input validation: the intervals of a well and branch\<close>










lemma unique_Nil_iff: "unique xs = [] \<longleftrightarrow> xs = []"
  by (cases xs) simp_all













text \<open>
  Two behaviours of the code that the statement above says nothing about. The
  rows of the last branch checked are assigned to \<open>df_comp\<close>, so a well after the first
  finds no rows of its own and is not checked: the gap in the second well of
  \<open>second_well_gap_table\<close> passes. And no check compares the start of an interval with
  its own end, so the interval from 100 back to 40 of \<open>backward_group\<close> passes.
\<close>

lemma later_wells_not_checked:
  "assess_completion annulus_check second_well_gap_table = Inr ()
   \<and> assess_group annulus_check (branch_group second_well_gap_table ''W2'' 1) ''W2''
       = Inl (IncompleteDescription ''W2'' (Finite 100) (Finite 150))"
  by (simp add: assess_completion_def assess_group_def interval_def check_for_errors_def
      annulus_check_def float_ne_def float_gt_def upt_rec second_well_gap_table_def
      branch_group_def)

lemma backward_interval_accepted: "assess_completion annulus_check backward_group = Inr ()"
  by (simp add: assess_completion_def assess_group_def interval_def check_for_errors_def
      annulus_check_def float_ne_def float_gt_def upt_rec backward_group_def)





section \<open>WellDataSelector: the well name and the reservoir table\<close>

text \<open>
  C8. \<open>select_well\<close> raises the error "No well name given" exactly when the well name
  is unset (\<open>None\<close>); when a well name is set it returns the updated object.
\<close>

theorem select_well_missing_well:
  "(select_well schedule lateral self = Inl (ValueError ''No well name given''))
     = (well_name self = None)
   \<and> (\<exists>self'. select_well schedule lateral self = Inr self') = (well_name self \<noteq> None)"
  by (cases "well_name self") (simp_all add: select_well_def Let_def split: prod.splits)

text \<open>
  C3 at a schedule whose COMPSEGS names one cell twice, at two depths. The code drops
  duplicates of the start depth, not of the grid-index tuple: both rows of the cell
  (1, 1, 1) stay in \<open>df_reservoir\<close>, where the specification keeps the last of them only.
\<close>

theorem select_well_keeps_duplicate_cell:
  "(\<exists>self'. select_well twice_crossed_schedule 1 well_W1 = Inr self'
      \<and> map (\<lambda>r. (res_index r, res_I r, res_J r, res_K r, res_STARTMD r)) (df_reservoir self')
          = [(0, 1, 1, 1, Finite 10), (1, 1, 1, 1, Finite 30)])
   \<and> map (\<lambda>r. (res_I r, res_J r, res_K r, res_STARTMD r))
        (spec_reservoir (get_compsegs twice_crossed_schedule ''W1'' 1)
                        (get_compdat twice_crossed_schedule ''W1''))
      = [(1, 1, 1, Finite 30)]"
  by (simp add: select_well_def well_W1_def twice_crossed_schedule_def pd_merge_inner_def
      merge_row_def range_index_def drop_WELL_def reset_index_def spec_reservoir_def
      upt_rec)

end
